theory Spec2Isabelle
  imports Main "HOL-Library.Word" "HOL-Library.Sublist"
begin

section \<open>The Go values and library functions the package uses\<close>

text \<open>
  Package \<open>log\<close> formats every message with \<open>fmt.Sprintf\<close>, joins the pieces with
  \<open>strings.Join\<close> and builds the failure of a subprocess with \<open>fmt.Errorf\<close>. These
  belong to Go's standard library. They are modelled here for the operand types and the
  verbs the package itself uses: operands of type \<open>string\<close>, \<open>int\<close>, \<open>error\<close>,
  \<open>[]byte\<close> and \<open>[]string\<close>, and the verbs \<open>%v %s %d %x %q\<close> with no flag, width,
  precision or argument index, and \<open>%%\<close>.
\<close>

text \<open>An \<open>error\<close> value, identified by the text its \<open>Error()\<close> method returns.\<close>

datatype error = Error (msg: string)

text \<open>Go's \<open>int\<close> on the 64-bit platforms: a two's complement word whose \<open>++\<close> wraps.\<close>

type_synonym go_int = "64 word"

text \<open>An operand of \<open>a ...interface{}\<close>.\<close>

datatype gval =
    VString string
  | VInt go_int
  | VError error
  | VBytes string
  | VStrings "string list"

definition digit_chars :: string where
  "digit_chars = ''0123456789abcdef''"

function fmt_base :: "nat \<Rightarrow> nat \<Rightarrow> string" where
  "fmt_base b n =
     (if b < 2 \<or> n < b then [digit_chars ! n]
      else fmt_base b (n div b) @ [digit_chars ! (n mod b)])"
  by pat_completeness auto
termination
  by (relation "measure (\<lambda>(b, n). n)") auto

text \<open>\<open>%x\<close> and \<open>%d\<close> of a signed integer: a minus sign, then the magnitude.\<close>

definition fmt_x :: "go_int \<Rightarrow> string" where
  "fmt_x i = (if sint i < 0 then CHR ''-'' # fmt_base 16 (nat (- sint i))
              else fmt_base 16 (nat (sint i)))"

definition fmt_d :: "go_int \<Rightarrow> string" where
  "fmt_d i = (if sint i < 0 then CHR ''-'' # fmt_base 10 (nat (- sint i))
              else fmt_base 10 (nat (sint i)))"

text \<open>\<open>%x\<close> of a string or byte slice: two lowercase hexadecimal digits per byte.\<close>

definition hex_byte :: "char \<Rightarrow> string" where
  "hex_byte c = [digit_chars ! (of_char c div 16), digit_chars ! (of_char c mod 16)]"

definition fmt_sbx :: "string \<Rightarrow> string" where
  "fmt_sbx s = concat (map hex_byte s)"

text \<open>
  \<open>strconv.Quote\<close>, which \<open>%q\<close> applies: the double quote and the backslash are
  escaped, printable ASCII is kept, the control characters get their escapes. A byte from
  \<open>0x80\<close> on is rendered as a backslash, \<open>x\<close> and its two hexadecimal digits, which is
  Go's rendering of a byte that does not belong to a valid UTF-8 sequence; Go's Unicode
  tables are not modelled.
\<close>

definition quote_byte :: "char \<Rightarrow> string" where
  "quote_byte c =
     (let n = (of_char c :: nat) in
      if n = 0x22 then [CHR 0x5C, CHR 0x22]
      else if n = 0x5C then [CHR 0x5C, CHR 0x5C]
      else if 0x20 \<le> n \<and> n < 0x7F then [c]
      else if n = 7 then [CHR 0x5C, CHR ''a'']
      else if n = 8 then [CHR 0x5C, CHR ''b'']
      else if n = 12 then [CHR 0x5C, CHR ''f'']
      else if n = 10 then [CHR 0x5C, CHR ''n'']
      else if n = 13 then [CHR 0x5C, CHR ''r'']
      else if n = 9 then [CHR 0x5C, CHR ''t'']
      else if n = 11 then [CHR 0x5C, CHR ''v'']
      else [CHR 0x5C, CHR ''x''] @ hex_byte c)"

definition strconv_Quote :: "string \<Rightarrow> string" where
  "strconv_Quote s = [CHR 0x22] @ concat (map quote_byte s) @ [CHR 0x22]"

fun strings_Join :: "string list \<Rightarrow> string \<Rightarrow> string" where
  "strings_Join [] sep = []"
| "strings_Join [x] sep = x"
| "strings_Join (x # y # ys) sep = x @ sep @ strings_Join (y # ys) sep"

definition type_name :: "gval \<Rightarrow> string" where
  "type_name x = (case x of
      VString _ \<Rightarrow> ''string''
    | VInt _ \<Rightarrow> ''int''
    | VError _ \<Rightarrow> ''*errors.errorString''
    | VBytes _ \<Rightarrow> ''[]uint8''
    | VStrings _ \<Rightarrow> ''[]string'')"

text \<open>An operand under \<open>%v\<close>.\<close>

definition fmt_v :: "gval \<Rightarrow> string" where
  "fmt_v x = (case x of
      VString s \<Rightarrow> s
    | VInt i \<Rightarrow> fmt_d i
    | VError e \<Rightarrow> msg e
    | VBytes bs \<Rightarrow> ''['' @ strings_Join (map (\<lambda>c. fmt_base 10 (of_char c)) bs) '' '' @ '']''
    | VStrings ss \<Rightarrow> ''['' @ strings_Join ss '' '' @ '']'')"

text \<open>
  One operand under one verb. The package's own formats use \<open>%s\<close> and \<open>%v\<close> on
  strings, \<open>%x\<close> on the counter, \<open>%v\<close> on errors and on the argument list, and
  \<open>%q\<close> on the two buffers; those renderings are Go's. What a caller's format can
  reach beyond the verbs listed above is rendered in the form of Go's bad-verb report,
  \<open>%!verb(type=value)\<close>, with an error taken to be one made by \<open>errors.New\<close>; the
  theorems below do not depend on it, since they carry the caller's message as
  \<open>Sprintf format a\<close>.
\<close>

definition bad_verb :: "char \<Rightarrow> gval \<Rightarrow> string" where
  "bad_verb verb x = ''%!'' @ [verb] @ ''('' @ type_name x @ ''='' @ fmt_v x @ '')''"

definition fmt_text :: "char \<Rightarrow> gval \<Rightarrow> string \<Rightarrow> string" where
  "fmt_text verb x s =
     (if verb = CHR ''v'' \<or> verb = CHR ''s'' then s
      else if verb = CHR ''q'' then strconv_Quote s
      else if verb = CHR ''x'' then fmt_sbx s
      else bad_verb verb x)"

definition printArg :: "char \<Rightarrow> gval \<Rightarrow> string" where
  "printArg verb x = (case x of
      VString s \<Rightarrow> fmt_text verb x s
    | VError e \<Rightarrow> fmt_text verb x (msg e)
    | VInt i \<Rightarrow>
        (if verb = CHR ''v'' \<or> verb = CHR ''d'' then fmt_d i
         else if verb = CHR ''x'' then fmt_x i
         else bad_verb verb x)
    | VBytes bs \<Rightarrow>
        (if verb = CHR ''s'' then bs
         else if verb = CHR ''q'' then strconv_Quote bs
         else if verb = CHR ''x'' then fmt_sbx bs
         else if verb = CHR ''v'' \<or> verb = CHR ''d'' then fmt_v x
         else bad_verb verb x)
    | VStrings ss \<Rightarrow>
        ''['' @ strings_Join (map (\<lambda>s. fmt_text verb (VString s) s) ss) '' '' @ '']'')"

text \<open>
  The scanning loop of \<open>fmt.Sprintf\<close>: text up to a \<open>%\<close> is copied, \<open>%%\<close> is a percent
  sign, a verb consumes the next operand, a verb with no operand left is reported as
  \<open>%!verb(MISSING)\<close>, a \<open>%\<close> at the end as \<open>%!(NOVERB)\<close>, and operands left over at the
  end as \<open>%!(EXTRA type=value, ...)\<close>.
\<close>

fun Sprintf :: "string \<Rightarrow> gval list \<Rightarrow> string" where
  "Sprintf [] [] = []"
| "Sprintf [] (x # xs) =
     ''%!(EXTRA '' @ strings_Join (map (\<lambda>y. type_name y @ ''='' @ fmt_v y) (x # xs)) '', '' @ '')''"
| "Sprintf (c # cs) a =
     (if c \<noteq> CHR ''%'' then c # Sprintf cs a
      else (case cs of
              [] \<Rightarrow> ''%!(NOVERB)'' @ Sprintf [] a
            | verb # rest \<Rightarrow>
                if verb = CHR ''%'' then CHR ''%'' # Sprintf rest a
                else (case a of
                        [] \<Rightarrow> ''%!'' @ [verb] @ ''(MISSING)'' @ Sprintf rest []
                      | x # xs \<Rightarrow> printArg verb x @ Sprintf rest xs)))"

definition Errorf :: "string \<Rightarrow> gval list \<Rightarrow> error" where
  "Errorf format a = Error (Sprintf format a)"

section \<open>The world outside the logger\<close>

text \<open>
  The eight methods of the interface \<open>LoggerOps\<close> differ in the severity they write at.
\<close>

datatype severity =
  LOG_EMERG | LOG_ALERT | LOG_CRIT | LOG_ERR | LOG_WARNING | LOG_NOTICE | LOG_INFO | LOG_DEBUG

text \<open>
  A value of the interface \<open>LoggerOps\<close>: the writer \<open>syslog.New\<close> returns, the
  package's console backend \<open>Stdout{}\<close> (its methods are in a file of the package that is
  not among the sources; only its identity is used), or any other implementation, told
  apart by a number.
\<close>

datatype LoggerOps = Syslog_Writer | Stdout | Backend nat

type_synonym entry = "LoggerOps \<times> severity \<times> string"

record Cmd =
  Path :: string
  Args :: "string list"

text \<open>
  What the package observes and changes outside a \<open>Logger\<close>: \<open>written\<close> lists every
  call of a backend method, in order, with the string it was given; \<open>reply\<close> is the
  \<open>error\<close> (or \<open>nil\<close>, \<open>None\<close>) a backend returns for a call, given the calls before
  it; \<open>syslog_New\<close> is the result of \<open>syslog.New(syslog.LOG_DEBUG, "ignition")\<close>; and
  \<open>cmd_Run\<close> is the result of \<open>cmd.Run()\<close> together with the bytes the process wrote to
  the two buffers attached as its standard output and standard error.
\<close>

record world =
  written :: "entry list"
  reply :: "entry list \<Rightarrow> entry \<Rightarrow> error option"
  syslog_New :: "error + LoggerOps"
  cmd_Run :: "Cmd \<Rightarrow> error option \<times> string \<times> string"

text \<open>
  A call either returns a value or panics; both leave a state behind. \<open>andThen\<close>
  sequences two calls, a panic of the first skipping the second. \<open>deferred\<close> is Go's
  \<open>defer\<close>: the deferred call runs when the body has returned and also when it has
  panicked, and the body's result stands unless the deferred call panics itself.
\<close>

datatype 'a res = Ok 'a | Panic

type_synonym ('a, 's) prog = "'s \<Rightarrow> 'a res \<times> 's"

definition ret :: "'a \<Rightarrow> ('a, 's) prog" where
  "ret x = (\<lambda>s. (Ok x, s))"

definition andThen :: "('a, 's) prog \<Rightarrow> ('a \<Rightarrow> ('b, 's) prog) \<Rightarrow> ('b, 's) prog" where
  "andThen m f = (\<lambda>s. case m s of (Panic, s') \<Rightarrow> (Panic, s') | (Ok x, s') \<Rightarrow> f x s')"

definition deferred :: "(unit, 's) prog \<Rightarrow> ('a, 's) prog \<Rightarrow> ('a, 's) prog" where
  "deferred d body =
     (\<lambda>s. case body s of (r, s') \<Rightarrow>
            (case d s' of (Panic, s'') \<Rightarrow> (Panic, s'') | (Ok _, s'') \<Rightarrow> (r, s'')))"

section \<open>The logger\<close>

text \<open>
  \<open>type Logger struct\<close>. The interface field \<open>ops\<close> is \<open>nil\<close> (\<open>None\<close>) in the zero
  value \<open>Logger{}\<close>. The slice \<open>prefixStack\<close> is a list: this is what one logger
  sees of its own stack; two copies of a \<open>Logger\<close> value that share the slice's array
  are not modelled.
\<close>

record Logger =
  ops :: "LoggerOps option"
  prefixStack :: "string list"
  opSequenceNum :: go_int

text \<open>
  A method of \<open>l.ops\<close>, as in \<open>l.ops.Info\<close>: on the \<open>nil\<close> interface the call panics;
  otherwise the call is recorded and the backend's reply returned.
\<close>

definition ops_method :: "LoggerOps option \<Rightarrow> severity \<Rightarrow> string \<Rightarrow> (error option, world) prog" where
  "ops_method backend sev m =
     (\<lambda>w. case backend of
            None \<Rightarrow> (Panic, w)
          | Some b \<Rightarrow> (Ok (reply w (written w) (b, sev, m)),
                       w\<lparr>written := written w @ [(b, sev, m)]\<rparr>))"

definition sprintf :: "Logger \<Rightarrow> string \<Rightarrow> gval list \<Rightarrow> string" where
  "sprintf l format a =
     (let m = foldl (\<lambda>m pfx. m @ [Sprintf ''%s:'' [VString pfx]]) [] (prefixStack l);
          m = m @ [Sprintf format a]
      in strings_Join m '' '')"

definition log :: "Logger \<Rightarrow> (string \<Rightarrow> (error option, world) prog) \<Rightarrow> string \<Rightarrow> gval list
    \<Rightarrow> (error option, world) prog" where
  "log l logFunc format a = logFunc (sprintf l format a)"

definition Emerg :: "Logger \<Rightarrow> string \<Rightarrow> gval list \<Rightarrow> (error option, world) prog" where
  "Emerg l format a = log l (ops_method (ops l) LOG_EMERG) format a"

definition Alert :: "Logger \<Rightarrow> string \<Rightarrow> gval list \<Rightarrow> (error option, world) prog" where
  "Alert l format a = log l (ops_method (ops l) LOG_ALERT) format a"

definition Crit :: "Logger \<Rightarrow> string \<Rightarrow> gval list \<Rightarrow> (error option, world) prog" where
  "Crit l format a = log l (ops_method (ops l) LOG_CRIT) format a"

definition Err :: "Logger \<Rightarrow> string \<Rightarrow> gval list \<Rightarrow> (error option, world) prog" where
  "Err l format a = log l (ops_method (ops l) LOG_ERR) format a"

definition Warning :: "Logger \<Rightarrow> string \<Rightarrow> gval list \<Rightarrow> (error option, world) prog" where
  "Warning l format a = log l (ops_method (ops l) LOG_WARNING) format a"

definition Notice :: "Logger \<Rightarrow> string \<Rightarrow> gval list \<Rightarrow> (error option, world) prog" where
  "Notice l format a = log l (ops_method (ops l) LOG_NOTICE) format a"

definition Info :: "Logger \<Rightarrow> string \<Rightarrow> gval list \<Rightarrow> (error option, world) prog" where
  "Info l format a = log l (ops_method (ops l) LOG_INFO) format a"

definition Debug :: "Logger \<Rightarrow> string \<Rightarrow> gval list \<Rightarrow> (error option, world) prog" where
  "Debug l format a = log l (ops_method (ops l) LOG_DEBUG) format a"

text \<open>
  The methods with a pointer receiver work on the logger and the world together. A method
  with a value receiver called through the pointer reads the logger as it is at the call.
\<close>

type_synonym state = "Logger \<times> world"

definition on_value :: "(Logger \<Rightarrow> ('a, world) prog) \<Rightarrow> ('a, state) prog" where
  "on_value f = (\<lambda>(l, w). case f l w of (r, w') \<Rightarrow> (r, (l, w')))"

definition PushPrefix :: "string \<Rightarrow> gval list \<Rightarrow> (unit, state) prog" where
  "PushPrefix format a =
     (\<lambda>(l, w). (Ok (), (l\<lparr>prefixStack := prefixStack l @ [Sprintf format a]\<rparr>, w)))"

definition PopPrefix :: "(unit, state) prog" where
  "PopPrefix =
     (\<lambda>(l, w).
        if length (prefixStack l) = 0
        then andThen (on_value (\<lambda>l. Debug l ''popped from empty stack'' [])) (\<lambda>_. ret ()) (l, w)
        else (Ok (), (l\<lparr>prefixStack := take (length (prefixStack l) - 1) (prefixStack l)\<rparr>, w)))"

definition logStart :: "Logger \<Rightarrow> string \<Rightarrow> gval list \<Rightarrow> (unit, world) prog" where
  "logStart l format a =
     andThen (Info l (Sprintf ''[started]  %s'' [VString format]) a) (\<lambda>_. ret ())"

definition logFail :: "Logger \<Rightarrow> string \<Rightarrow> gval list \<Rightarrow> (unit, world) prog" where
  "logFail l format a =
     andThen (Crit l (Sprintf ''[failed]   %s'' [VString format]) a) (\<lambda>_. ret ())"

definition logFinish :: "Logger \<Rightarrow> string \<Rightarrow> gval list \<Rightarrow> (unit, world) prog" where
  "logFinish l format a =
     andThen (Info l (Sprintf ''[finished] %s'' [VString format]) a) (\<lambda>_. ret ())"

text \<open>
  \<open>LogOp\<close>. The action \<open>op\<close> is a closure: it may write through the logger, push and
  pop prefixes and call \<open>LogOp\<close> itself, so it is a call on the whole state, and it may
  return \<open>nil\<close>, return an \<open>error\<close> or panic.
\<close>

definition LogOp :: "(error option, state) prog \<Rightarrow> string \<Rightarrow> gval list \<Rightarrow> (error option, state) prog" where
  "LogOp op format a =
     andThen (\<lambda>(l, w). (Ok (), (l\<lparr>opSequenceNum := opSequenceNum l + 1\<rparr>, w))) (\<lambda>_.
     andThen (\<lambda>(l, w). PushPrefix ''op(%x)'' [VInt (opSequenceNum l)] (l, w)) (\<lambda>_.
     deferred PopPrefix (
       andThen (on_value (\<lambda>l. logStart l format a)) (\<lambda>_.
       andThen op (\<lambda>err.
         case err of
           Some e \<Rightarrow>
             andThen (on_value (\<lambda>l. logFail l ''%s: %v'' [VString (Sprintf format a), VError e]))
               (\<lambda>_. ret (Some e))
         | None \<Rightarrow>
             andThen (on_value (\<lambda>l. logFinish l format a)) (\<lambda>_. ret None))))))"

text \<open>
  \<open>LogCmd\<close>, with its closure \<open>f\<close> as \<open>LogCmd_f\<close>: the closure logs the command,
  runs it with the two buffers attached, and on a failure returns the failure formatted
  together with what the buffers hold. \<open>LogCmd\<close> hands the closure to \<open>LogOp\<close>.
\<close>

definition LogCmd_f :: "Cmd \<Rightarrow> (error option, state) prog" where
  "LogCmd_f cmd =
     andThen (on_value (\<lambda>l.
       if length (Args cmd) \<le> 1
       then Debug l ''executing: %v'' [VString (Path cmd)]
       else Debug l ''executing: %v %v'' [VString (Path cmd), VStrings (drop 1 (Args cmd))])) (\<lambda>_.
     (\<lambda>(l, w). case cmd_Run w cmd of
        (Some err, stdout, stderr) \<Rightarrow>
          (Ok (Some (Errorf ''%v: Stdout: %q Stderr: %q'' [VError err, VBytes stdout, VBytes stderr])),
           (l, w))
      | (None, stdout, stderr) \<Rightarrow> (Ok None, (l, w))))"

definition LogCmd :: "Cmd \<Rightarrow> string \<Rightarrow> gval list \<Rightarrow> (error option, state) prog" where
  "LogCmd cmd format a = LogOp (LogCmd_f cmd) format a"

text \<open>\<open>New\<close>: the system log is tried first; if that fails the console backend is used.\<close>

definition New :: "(Logger, world) prog" where
  "New =
     (\<lambda>w. let logger = \<lparr>ops = None, prefixStack = [], opSequenceNum = 0\<rparr> in
        case syslog_New w of
          Inr slogger \<Rightarrow> (Ok (logger\<lparr>ops := Some slogger\<rparr>), w)
        | Inl err \<Rightarrow>
            (let logger = logger\<lparr>ops := Some Stdout\<rparr> in
             andThen (Err logger ''unable to open syslog: %v'' [VError err]) (\<lambda>_. ret logger) w))"

section \<open>Callers and expected output\<close>

text \<open>
  A caller's sequence of \<open>PushPrefix\<close> and \<open>PopPrefix\<close> calls on one logger, run in
  order.
\<close>

datatype stack_call = Push string "gval list" | Pop

fun apply_calls :: "stack_call list \<Rightarrow> (unit, state) prog" where
  "apply_calls [] = ret ()"
| "apply_calls (Push format a # cs) = andThen (PushPrefix format a) (\<lambda>_. apply_calls cs)"
| "apply_calls (Pop # cs) = andThen PopPrefix (\<lambda>_. apply_calls cs)"

definition is_pop :: "stack_call \<Rightarrow> bool" where
  "is_pop c = (case c of Pop \<Rightarrow> True | Push _ _ \<Rightarrow> False)"

text \<open>No prefix of the sequence contains more pops than pushes.\<close>

definition never_overpops :: "stack_call list \<Rightarrow> bool" where
  "never_overpops cs =
     (\<forall>p \<in> set (prefixes cs). length (filter is_pop p) \<le> length (filter (\<lambda>c. \<not> is_pop c) p))"

text \<open>
  The pushed labels minus the popped ones, in push order: a label is still there at the
  end when the calls after its push never pop more than they push.
\<close>

fun surviving :: "stack_call list \<Rightarrow> string list" where
  "surviving [] = []"
| "surviving (Push format a # cs) =
     (if never_overpops cs then [Sprintf format a] else []) @ surviving cs"
| "surviving (Pop # cs) = surviving cs"

text \<open>How many of the labels pushed before a sequence the sequence removes.\<close>

fun deficit :: "stack_call list \<Rightarrow> nat" where
  "deficit [] = 0"
| "deficit (Push format a # cs) = deficit cs - 1"
| "deficit (Pop # cs) = Suc (deficit cs)"

text \<open>
  The string a severity call hands the backend when the prefix stack is \<open>stack\<close> and
  the expanded message is \<open>m\<close>: every entry followed by a colon, then the message,
  joined by single spaces.
\<close>

definition rendered :: "string list \<Rightarrow> string \<Rightarrow> string" where
  "rendered stack m = strings_Join (map (\<lambda>pfx. pfx @ '':'') stack @ [m]) '' ''"

text \<open>The synthetic prefix of the operation with counter value \<open>n\<close>.\<close>

definition op_prefix :: "go_int \<Rightarrow> string" where
  "op_prefix n = ''op('' @ fmt_x n @ '')''"

text \<open>
  A caller's invocations of the two wrappers on one logger, run in order: \<open>LogOp\<close> on
  an action that returns \<open>r\<close> and does nothing else, or \<open>LogCmd\<close> on a command.
\<close>

datatype invocation =
    Op_returning "error option" string "gval list"
  | Cmd_run Cmd string "gval list"

fun invoke :: "invocation \<Rightarrow> (error option, state) prog" where
  "invoke (Op_returning r format a) = LogOp (ret r) format a"
| "invoke (Cmd_run cmd format a) = LogCmd cmd format a"

fun invoke_all :: "invocation list \<Rightarrow> (unit, state) prog" where
  "invoke_all [] = ret ()"
| "invoke_all (i # is) = andThen (invoke i) (\<lambda>_. invoke_all is)"

text \<open>
  The lines one invocation is expected to write when the stack it starts from is
  \<open>stack\<close> and its synthetic prefix is \<open>ident\<close>: the start line, for a command the
  line naming it, and the line for the outcome.
\<close>

definition outcome_line :: "LoggerOps \<Rightarrow> string list \<Rightarrow> string \<Rightarrow> error option \<Rightarrow> entry" where
  "outcome_line b stack m r = (case r of
      None \<Rightarrow> (b, LOG_INFO, rendered stack (''[finished] '' @ m))
    | Some e \<Rightarrow> (b, LOG_CRIT, rendered stack (''[failed]   '' @ m @ '': '' @ msg e)))"

definition cmd_failure :: "error \<Rightarrow> string \<Rightarrow> string \<Rightarrow> error" where
  "cmd_failure e stdout stderr =
     Error (msg e @ '': Stdout: '' @ strconv_Quote stdout @ '' Stderr: '' @ strconv_Quote stderr)"

definition cmd_result :: "error option \<times> string \<times> string \<Rightarrow> error option" where
  "cmd_result x = (case x of
      (Some e, stdout, stderr) \<Rightarrow> Some (cmd_failure e stdout stderr)
    | (None, stdout, stderr) \<Rightarrow> None)"

definition cmd_line :: "Cmd \<Rightarrow> string" where
  "cmd_line cmd =
     (if length (Args cmd) \<le> 1 then ''executing: '' @ Path cmd
      else ''executing: '' @ Path cmd @ '' ['' @ strings_Join (drop 1 (Args cmd)) '' '' @ '']'')"

fun op_lines :: "(Cmd \<Rightarrow> error option \<times> string \<times> string) \<Rightarrow> LoggerOps \<Rightarrow> string list
    \<Rightarrow> string \<Rightarrow> invocation \<Rightarrow> entry list" where
  "op_lines run b stack ident (Op_returning r format a) =
     [(b, LOG_INFO, rendered (stack @ [ident]) (''[started]  '' @ Sprintf format a)),
      outcome_line b (stack @ [ident]) (Sprintf format a) r]"
| "op_lines run b stack ident (Cmd_run cmd format a) =
     [(b, LOG_INFO, rendered (stack @ [ident]) (''[started]  '' @ Sprintf format a)),
      (b, LOG_DEBUG, rendered (stack @ [ident]) (cmd_line cmd)),
      outcome_line b (stack @ [ident]) (Sprintf format a) (cmd_result (run cmd))]"

text \<open>Reading a hexadecimal numeral back.\<close>

definition digit_index :: "char \<Rightarrow> nat" where
  "digit_index c = length (takeWhile (\<lambda>d. d \<noteq> c) digit_chars)"

definition read_hex :: "string \<Rightarrow> nat" where
  "read_hex s = foldl (\<lambda>n c. 16 * n + digit_index c) 0 s"

text \<open>
  Example surroundings: a host whose system log opens and a host where it does not, both
  with backends whose writes succeed, and a host whose backends fail every write. On all of
  them the command run exits with status 1 after writing \<open>out\<close> to its standard output.
\<close>

definition syslog_host :: world where
  "syslog_host = \<lparr>written = [], reply = (\<lambda>_ _. None), syslog_New = Inr Syslog_Writer,
     cmd_Run = (\<lambda>_. (Some (Error ''exit status 1''), ''out'', []))\<rparr>"

definition console_host :: world where
  "console_host = syslog_host\<lparr>syslog_New := Inl (Error ''no such file or directory'')\<rparr>"

definition failing_host :: world where
  "failing_host = syslog_host\<lparr>reply := (\<lambda>_ _. Some (Error ''write: broken pipe''))\<rparr>"

definition fresh_logger :: Logger where
  "fresh_logger = \<lparr>ops = Some Syslog_Writer, prefixStack = [], opSequenceNum = 0\<rparr>"

section \<open>How the calls run\<close>

text \<open>Sequencing, and the formats the package itself uses.\<close>

lemma ret_apply [simp]: "ret x s = (Ok x, s)"
  by (simp add: ret_def)

lemma andThen_apply:
  "andThen m f s = (case m s of (Panic, s') \<Rightarrow> (Panic, s') | (Ok x, s') \<Rightarrow> f x s')"
  by (simp add: andThen_def)

lemma Sprintf_literal: "CHR ''%'' \<notin> set p \<Longrightarrow> Sprintf (p @ f) a = p @ Sprintf f a"
  by (induction p) auto

lemma Sprintf_plain: "CHR ''%'' \<notin> set p \<Longrightarrow> Sprintf p [] = p"
  using Sprintf_literal [of p "[]" "[]"] by simp

lemma foldl_snoc_map: "foldl (\<lambda>m pfx. m @ [g pfx]) acc xs = acc @ map g xs"
  by (induction xs arbitrary: acc) auto

lemma Sprintf_s_colon: "Sprintf ''%s:'' [VString p] = p @ '':''"
  by (simp add: printArg_def fmt_text_def)

lemma sprintf_rendered: "sprintf l format a = rendered (prefixStack l) (Sprintf format a)"
  by (simp add: sprintf_def rendered_def foldl_snoc_map Sprintf_s_colon del: Sprintf.simps)

lemma Sprintf_started: "Sprintf (Sprintf ''[started]  %s'' [VString format]) a = ''[started]  '' @ Sprintf format a"
proof -
  have "Sprintf ''[started]  %s'' [VString format] = ''[started]  '' @ format"
    by (simp add: printArg_def fmt_text_def)
  then show ?thesis
    using Sprintf_literal [of "''[started]  ''" format a] by simp
qed

lemma Sprintf_finished: "Sprintf (Sprintf ''[finished] %s'' [VString format]) a = ''[finished] '' @ Sprintf format a"
proof -
  have "Sprintf ''[finished] %s'' [VString format] = ''[finished] '' @ format"
    by (simp add: printArg_def fmt_text_def)
  then show ?thesis
    using Sprintf_literal [of "''[finished] ''" format a] by simp
qed

lemma Sprintf_failed:
  "Sprintf (Sprintf ''[failed]   %s'' [VString ''%s: %v'']) [VString m, VError e] = ''[failed]   '' @ m @ '': '' @ msg e"
  by (simp add: printArg_def fmt_text_def)

lemma Sprintf_op: "Sprintf ''op(%x)'' [VInt n] = op_prefix n"
  by (simp add: printArg_def op_prefix_def)

declare Sprintf.simps [simp del]

lemma ops_method_Some:
  "ops_method (Some b) sev m w = (Ok (reply w (written w) (b, sev, m)), w\<lparr>written := written w @ [(b, sev, m)]\<rparr>)"
  by (simp add: ops_method_def)

lemma logStart_run:
  "logStart l format a w = (case ops l of None \<Rightarrow> (Panic, w)
     | Some b \<Rightarrow> (Ok (), w\<lparr>written := written w @ [(b, LOG_INFO, rendered (prefixStack l) (''[started]  '' @ Sprintf format a))]\<rparr>))"
  by (simp add: logStart_def andThen_apply Info_def log_def sprintf_rendered Sprintf_started ops_method_def split: option.splits)

lemma logFinish_run:
  "logFinish l format a w = (case ops l of None \<Rightarrow> (Panic, w)
     | Some b \<Rightarrow> (Ok (), w\<lparr>written := written w @ [outcome_line b (prefixStack l) (Sprintf format a) None]\<rparr>))"
  by (simp add: logFinish_def andThen_apply Info_def log_def sprintf_rendered Sprintf_finished ops_method_def outcome_line_def split: option.splits)

lemma logFail_run:
  "logFail l ''%s: %v'' [VString m, VError e] w = (case ops l of None \<Rightarrow> (Panic, w)
     | Some b \<Rightarrow> (Ok (), w\<lparr>written := written w @ [outcome_line b (prefixStack l) m (Some e)]\<rparr>))"
  by (simp add: logFail_def andThen_apply Crit_def log_def sprintf_rendered Sprintf_failed ops_method_def outcome_line_def split: option.splits)

lemma PopPrefix_run:
  "PopPrefix (l, w) =
     (if prefixStack l = [] then
        (case ops l of None \<Rightarrow> (Panic, (l, w))
         | Some b \<Rightarrow> (Ok (), (l, w\<lparr>written := written w @ [(b, LOG_DEBUG, ''popped from empty stack'')]\<rparr>)))
      else (Ok (), (l\<lparr>prefixStack := butlast (prefixStack l)\<rparr>, w)))"
  by (simp add: PopPrefix_def andThen_apply on_value_def Debug_def log_def sprintf_rendered rendered_def ops_method_def butlast_conv_take Sprintf_plain split: option.splits)


lemma LogOp_run:
  "LogOp op format a (l, w) =
     (case ops l of
        None \<Rightarrow> (Panic, (l\<lparr>opSequenceNum := opSequenceNum l + 1\<rparr>, w))
      | Some b \<Rightarrow>
         (case op (l\<lparr>opSequenceNum := opSequenceNum l + 1,
                      prefixStack := prefixStack l @ [op_prefix (opSequenceNum l + 1)]\<rparr>,
                   w\<lparr>written := written w @
                      [(b, LOG_INFO, rendered (prefixStack l @ [op_prefix (opSequenceNum l + 1)])
                          (''[started]  '' @ Sprintf format a))]\<rparr>) of
            (Panic, s2) \<Rightarrow> (Panic, snd (PopPrefix s2))
          | (Ok err, (l2, w2)) \<Rightarrow>
              (case ops l2 of
                 None \<Rightarrow> (Panic, snd (PopPrefix (l2, w2)))
               | Some b2 \<Rightarrow>
                  (case PopPrefix (l2, w2\<lparr>written := written w2 @
                           [outcome_line b2 (prefixStack l2) (Sprintf format a) err]\<rparr>) of
                     (Panic, s3) \<Rightarrow> (Panic, s3)
                   | (Ok u, s3) \<Rightarrow> (Ok err, s3)))))"
proof (cases "ops l")
  case None
  then show ?thesis
    by (simp add: LogOp_def andThen_apply deferred_def PushPrefix_def Sprintf_op on_value_def
        logStart_run PopPrefix_run)
next
  case (Some b)
  let ?s1 = "(l\<lparr>opSequenceNum := opSequenceNum l + 1,
                 prefixStack := prefixStack l @ [op_prefix (opSequenceNum l + 1)]\<rparr>,
              w\<lparr>written := written w @
                 [(b, LOG_INFO, rendered (prefixStack l @ [op_prefix (opSequenceNum l + 1)])
                     (''[started]  '' @ Sprintf format a))]\<rparr>)"
  obtain r l2 w2 where op: "op ?s1 = (r, (l2, w2))"
    by (metis prod.exhaust)
  note unfold = LogOp_def andThen_apply deferred_def PushPrefix_def Sprintf_op on_value_def
    logStart_run logFail_run logFinish_run
  show ?thesis
  proof (cases r)
    case Panic
    with Some op show ?thesis
      by (simp add: unfold split: prod.splits res.splits)
  next
    case (Ok err)
    show ?thesis
    proof (cases "ops l2")
      case None
      with Some op Ok show ?thesis
        by (cases err) (simp_all add: unfold split: prod.splits res.splits)
    next
      case b2: (Some b2)
      with Some op Ok show ?thesis
        by (cases err) (simp_all add: unfold split: prod.splits res.splits)
    qed
  qed
qed

lemma severity_run:
  "Emerg l format a = ops_method (ops l) LOG_EMERG (rendered (prefixStack l) (Sprintf format a))"
  "Alert l format a = ops_method (ops l) LOG_ALERT (rendered (prefixStack l) (Sprintf format a))"
  "Crit l format a = ops_method (ops l) LOG_CRIT (rendered (prefixStack l) (Sprintf format a))"
  "Err l format a = ops_method (ops l) LOG_ERR (rendered (prefixStack l) (Sprintf format a))"
  "Warning l format a = ops_method (ops l) LOG_WARNING (rendered (prefixStack l) (Sprintf format a))"
  "Notice l format a = ops_method (ops l) LOG_NOTICE (rendered (prefixStack l) (Sprintf format a))"
  "Info l format a = ops_method (ops l) LOG_INFO (rendered (prefixStack l) (Sprintf format a))"
  "Debug l format a = ops_method (ops l) LOG_DEBUG (rendered (prefixStack l) (Sprintf format a))"
  by (simp_all add: Emerg_def Alert_def Crit_def Err_def Warning_def Notice_def Info_def
      Debug_def log_def sprintf_rendered)

lemma rendered_two: "rendered [A, B] m = A @ '': '' @ B @ '': '' @ m"
  by (simp add: rendered_def)

section \<open>Prefix composition and the prefix stack\<close>

text \<open>
  Claim C1. A severity call hands the backend the entries of the prefix stack in the order
  they were pushed, each followed by a colon, and then the expanded message, joined by
  single spaces. With the stack \<open>[A, B]\<close> and the message \<open>msg\<close>, each of the eight
  severity calls writes exactly \<open>A: B: msg\<close>, at its own severity, and returns what the
  backend replies.
\<close>

theorem severity_call_composes_prefixes:
  "sprintf l format a =
     strings_Join (map (\<lambda>pfx. pfx @ '':'') (prefixStack l) @ [Sprintf format a]) '' ''
   \<and> Info \<lparr>ops = Some b, prefixStack = [A, B], opSequenceNum = n\<rparr> ''msg'' [] w =
       (Ok (reply w (written w) (b, LOG_INFO, A @ '': '' @ B @ '': msg'')),
        w\<lparr>written := written w @ [(b, LOG_INFO, A @ '': '' @ B @ '': msg'')]\<rparr>)
   \<and> Emerg \<lparr>ops = Some b, prefixStack = [A, B], opSequenceNum = n\<rparr> ''msg'' [] w =
       (Ok (reply w (written w) (b, LOG_EMERG, A @ '': '' @ B @ '': msg'')),
        w\<lparr>written := written w @ [(b, LOG_EMERG, A @ '': '' @ B @ '': msg'')]\<rparr>)
   \<and> Alert \<lparr>ops = Some b, prefixStack = [A, B], opSequenceNum = n\<rparr> ''msg'' [] w =
       (Ok (reply w (written w) (b, LOG_ALERT, A @ '': '' @ B @ '': msg'')),
        w\<lparr>written := written w @ [(b, LOG_ALERT, A @ '': '' @ B @ '': msg'')]\<rparr>)
   \<and> Crit \<lparr>ops = Some b, prefixStack = [A, B], opSequenceNum = n\<rparr> ''msg'' [] w =
       (Ok (reply w (written w) (b, LOG_CRIT, A @ '': '' @ B @ '': msg'')),
        w\<lparr>written := written w @ [(b, LOG_CRIT, A @ '': '' @ B @ '': msg'')]\<rparr>)
   \<and> Err \<lparr>ops = Some b, prefixStack = [A, B], opSequenceNum = n\<rparr> ''msg'' [] w =
       (Ok (reply w (written w) (b, LOG_ERR, A @ '': '' @ B @ '': msg'')),
        w\<lparr>written := written w @ [(b, LOG_ERR, A @ '': '' @ B @ '': msg'')]\<rparr>)
   \<and> Warning \<lparr>ops = Some b, prefixStack = [A, B], opSequenceNum = n\<rparr> ''msg'' [] w =
       (Ok (reply w (written w) (b, LOG_WARNING, A @ '': '' @ B @ '': msg'')),
        w\<lparr>written := written w @ [(b, LOG_WARNING, A @ '': '' @ B @ '': msg'')]\<rparr>)
   \<and> Notice \<lparr>ops = Some b, prefixStack = [A, B], opSequenceNum = n\<rparr> ''msg'' [] w =
       (Ok (reply w (written w) (b, LOG_NOTICE, A @ '': '' @ B @ '': msg'')),
        w\<lparr>written := written w @ [(b, LOG_NOTICE, A @ '': '' @ B @ '': msg'')]\<rparr>)
   \<and> Debug \<lparr>ops = Some b, prefixStack = [A, B], opSequenceNum = n\<rparr> ''msg'' [] w =
       (Ok (reply w (written w) (b, LOG_DEBUG, A @ '': '' @ B @ '': msg'')),
        w\<lparr>written := written w @ [(b, LOG_DEBUG, A @ '': '' @ B @ '': msg'')]\<rparr>)"
  by (simp add: severity_run ops_method_Some rendered_two Sprintf_plain sprintf_rendered rendered_def)

theorem severity_call_composes_prefixes_witness:
  "sprintf \<lparr>ops = Some Stdout, prefixStack = [''A'', ''B''], opSequenceNum = 0\<rparr> ''msg'' [] = ''A: B: msg''
   \<and> written (snd (Info \<lparr>ops = Some Stdout, prefixStack = [''A'', ''B''], opSequenceNum = 0\<rparr> ''msg'' [] syslog_host))
       = [(Stdout, LOG_INFO, ''A: B: msg'')]"
  using severity_call_composes_prefixes [of "\<lparr>ops = Some Stdout, prefixStack = [''A'', ''B''], opSequenceNum = 0\<rparr>"
      "''msg''" "[]" Stdout "''A''" "''B''" 0 syslog_host]
  by (simp add: syslog_host_def Sprintf_plain)

text \<open>
  Claim C7. \<open>PopPrefix\<close> on a logger that has a backend and an empty prefix stack
  returns, leaves the stack empty and writes one line at debug severity,
  \<open>popped from empty stack\<close>. On a stack that is not empty it removes the last entry and
  writes nothing, so a push followed by a pop leaves the logger as it was.
\<close>

theorem PopPrefix_empty_and_nonempty:
  "PopPrefix (\<lparr>ops = Some b, prefixStack = [], opSequenceNum = n\<rparr>, w) =
     (Ok (), (\<lparr>ops = Some b, prefixStack = [], opSequenceNum = n\<rparr>,
              w\<lparr>written := written w @ [(b, LOG_DEBUG, ''popped from empty stack'')]\<rparr>))
   \<and> PopPrefix (l\<lparr>prefixStack := stack @ [label]\<rparr>, w) = (Ok (), (l\<lparr>prefixStack := stack\<rparr>, w))
   \<and> andThen (PushPrefix format a) (\<lambda>_. PopPrefix) (l, w) = (Ok (), (l, w))"
  by (simp add: PopPrefix_run PushPrefix_def andThen_apply)

theorem PopPrefix_empty_and_nonempty_witness:
  "PopPrefix (fresh_logger, syslog_host) =
     (Ok (), (fresh_logger, syslog_host\<lparr>written := [(Syslog_Writer, LOG_DEBUG, ''popped from empty stack'')]\<rparr>))
   \<and> PopPrefix (fresh_logger\<lparr>prefixStack := [''a'', ''b'']\<rparr>, syslog_host) =
       (Ok (), (fresh_logger\<lparr>prefixStack := [''a'']\<rparr>, syslog_host))"
  using PopPrefix_empty_and_nonempty [where b = Syslog_Writer and n = 0 and w = syslog_host
      and l = fresh_logger and stack = "[''a'']" and label = "''b''"]
  by (simp add: fresh_logger_def syslog_host_def)

section \<open>The operation wrappers\<close>

lemma Sprintf_executing:
  "Sprintf ''executing: %v'' [VString p] = ''executing: '' @ p"
  "Sprintf ''executing: %v %v'' [VString p, VStrings ss] =
     ''executing: '' @ p @ '' ['' @ strings_Join ss '' '' @ '']''"
  by (simp_all add: Sprintf.simps printArg_def fmt_text_def)

lemma Errorf_cmd:
  "Errorf ''%v: Stdout: %q Stderr: %q'' [VError e, VBytes out, VBytes err] = cmd_failure e out err"
  by (simp add: Errorf_def cmd_failure_def Sprintf.simps printArg_def fmt_text_def)

lemma LogCmd_f_run:
  "LogCmd_f cmd (l, w) =
     (case ops l of
        None \<Rightarrow> (Panic, (l, w))
      | Some b \<Rightarrow>
          (Ok (cmd_result (cmd_Run w cmd)),
           (l, w\<lparr>written := written w @ [(b, LOG_DEBUG, rendered (prefixStack l) (cmd_line cmd))]\<rparr>)))"
proof (cases "cmd_Run w cmd")
  case (fields r out err)
  then show ?thesis
    by (cases r)
      (simp_all add: LogCmd_f_def andThen_apply on_value_def severity_run ops_method_def
        Sprintf_executing cmd_line_def cmd_result_def Errorf_cmd split: option.splits)
qed

lemma LogCmd_f_frame:
  "prefixStack (fst (snd (LogCmd_f cmd s))) = prefixStack (fst s)"
  "ops (fst (snd (LogCmd_f cmd s))) = ops (fst s)"
  by (cases s; simp add: LogCmd_f_run split: option.splits)+

text \<open>One invocation on a logger that has a backend.\<close>

lemma LogOp_ret:
  "LogOp (ret r) format a (\<lparr>ops = Some b, prefixStack = st, opSequenceNum = n\<rparr>, w) =
     (Ok r, (\<lparr>ops = Some b, prefixStack = st, opSequenceNum = n + 1\<rparr>,
             w\<lparr>written := written w @
                [(b, LOG_INFO, rendered (st @ [op_prefix (n + 1)]) (''[started]  '' @ Sprintf format a)),
                 outcome_line b (st @ [op_prefix (n + 1)]) (Sprintf format a) r]\<rparr>))"
  by (simp add: LogOp_run PopPrefix_run)

lemma LogCmd_run:
  "LogCmd cmd format a (\<lparr>ops = Some b, prefixStack = st, opSequenceNum = n\<rparr>, w) =
     (Ok (cmd_result (cmd_Run w cmd)),
      (\<lparr>ops = Some b, prefixStack = st, opSequenceNum = n + 1\<rparr>,
       w\<lparr>written := written w @
          [(b, LOG_INFO, rendered (st @ [op_prefix (n + 1)]) (''[started]  '' @ Sprintf format a)),
           (b, LOG_DEBUG, rendered (st @ [op_prefix (n + 1)]) (cmd_line cmd)),
           outcome_line b (st @ [op_prefix (n + 1)]) (Sprintf format a) (cmd_result (cmd_Run w cmd))]\<rparr>))"
  by (simp add: LogCmd_def LogOp_run LogCmd_f_run PopPrefix_run)

lemma invoke_run:
  "invoke i (\<lparr>ops = Some b, prefixStack = st, opSequenceNum = n\<rparr>, w) =
     (Ok (case i of Op_returning r _ _ \<Rightarrow> r | Cmd_run cmd _ _ \<Rightarrow> cmd_result (cmd_Run w cmd)),
      (\<lparr>ops = Some b, prefixStack = st, opSequenceNum = n + 1\<rparr>,
       w\<lparr>written := written w @ op_lines (cmd_Run w) b st (op_prefix (n + 1)) i\<rparr>))"
  by (cases i) (simp_all add: LogOp_ret LogCmd_run)

lemma op_prefix_1: "op_prefix 1 = ''op(1)''" "op_prefix 2 = ''op(2)''"
  by (simp_all add: op_prefix_def fmt_x_def digit_chars_def)

text \<open>
  Claim C2. When the action wrapped by \<open>LogOp\<close> returns a failure \<open>e\<close>, on a logger
  that has a backend before and after the action and whose stack the action leaves as it
  found it, \<open>LogOp\<close> returns that same \<open>e\<close>; after the action it writes exactly one
  more line, at critical severity, with the marker \<open>[failed]\<close>, the expanded message and
  the failure's text, and no \<open>[finished]\<close> line; and the prefix stack it leaves is the
  one before the call, the synthetic \<open>op(...)\<close> prefix removed.
\<close>

theorem LogOp_action_failure:
  assumes "ops l = Some b"
    and "op (l\<lparr>opSequenceNum := opSequenceNum l + 1,
               prefixStack := prefixStack l @ [op_prefix (opSequenceNum l + 1)]\<rparr>,
             w\<lparr>written := written w @
               [(b, LOG_INFO, rendered (prefixStack l @ [op_prefix (opSequenceNum l + 1)])
                  (''[started]  '' @ Sprintf format a))]\<rparr>) = (Ok (Some e), (l', w'))"
    and "ops l' = Some b'"
    and "prefixStack l' = prefixStack l @ [op_prefix (opSequenceNum l + 1)]"
  shows "LogOp op format a (l, w) =
     (Ok (Some e),
      (l'\<lparr>prefixStack := prefixStack l\<rparr>,
       w'\<lparr>written := written w' @
          [(b', LOG_CRIT, rendered (prefixStack l @ [op_prefix (opSequenceNum l + 1)])
              (''[failed]   '' @ Sprintf format a @ '': '' @ msg e))]\<rparr>))"
  using assms by (simp add: LogOp_run PopPrefix_run outcome_line_def)

theorem LogOp_action_failure_witness:
  "LogOp (ret (Some (Error ''boom''))) ''fetch %s'' [VString ''x''] (fresh_logger, syslog_host) =
     (Ok (Some (Error ''boom'')),
      (fresh_logger\<lparr>opSequenceNum := 1\<rparr>,
       syslog_host\<lparr>written :=
          [(Syslog_Writer, LOG_INFO, ''op(1): [started]  fetch x''),
           (Syslog_Writer, LOG_CRIT, ''op(1): [failed]   fetch x: boom'')]\<rparr>))"
proof -
  let ?l1 = "fresh_logger\<lparr>opSequenceNum := opSequenceNum fresh_logger + 1,
               prefixStack := prefixStack fresh_logger @ [op_prefix (opSequenceNum fresh_logger + 1)]\<rparr>"
  let ?w1 = "syslog_host\<lparr>written := written syslog_host @
               [(Syslog_Writer, LOG_INFO, rendered (prefixStack fresh_logger @ [op_prefix (opSequenceNum fresh_logger + 1)])
                  (''[started]  '' @ Sprintf ''fetch %s'' [VString ''x'']))]\<rparr>"
  have h1: "ops fresh_logger = Some Syslog_Writer"
    by (simp add: fresh_logger_def)
  have h2: "ret (Some (Error ''boom'')) (?l1, ?w1) = (Ok (Some (Error ''boom'')), (?l1, ?w1))"
    by simp
  have h3: "ops ?l1 = Some Syslog_Writer"
    by (simp add: fresh_logger_def)
  have h4: "prefixStack ?l1 = prefixStack fresh_logger @ [op_prefix (opSequenceNum fresh_logger + 1)]"
    by simp
  show ?thesis
    using LogOp_action_failure [where op = "ret (Some (Error ''boom''))" and l = fresh_logger
        and w = syslog_host and format = "''fetch %s''" and a = "[VString ''x'']", OF h1 h2 h3 h4]
    by (simp add: fresh_logger_def syslog_host_def op_prefix_1 rendered_def Sprintf.simps
        printArg_def fmt_text_def)
qed

text \<open>
  Claim C4. Whatever the wrapped action does (return \<open>nil\<close>, return a failure, or
  panic), as long as it leaves the prefix stack as it found it, \<open>LogOp\<close> and \<open>LogCmd\<close>
  leave the prefix stack as it was before the call. When one \<open>LogOp\<close> runs inside
  another, the inner lines carry the outer and then the inner \<open>op(...)\<close> prefix, the
  outer lines before and after them carry the outer prefix alone, and the stack is back to
  what it was at the end.
\<close>

theorem wrapper_restores_prefix_stack:
  assumes "\<And>s. prefixStack (fst (snd (op s))) = prefixStack (fst s)"
  shows "prefixStack (fst (snd (LogOp op format a (l, w)))) = prefixStack l
    \<and> prefixStack (fst (snd (LogCmd cmd format a (l, w)))) = prefixStack l
    \<and> LogOp (LogOp (ret r) format2 a2) format1 a1
         (\<lparr>ops = Some b, prefixStack = st, opSequenceNum = n\<rparr>, w) =
       (Ok r, (\<lparr>ops = Some b, prefixStack = st, opSequenceNum = n + 2\<rparr>,
          w\<lparr>written := written w @
            [(b, LOG_INFO, rendered (st @ [op_prefix (n + 1)]) (''[started]  '' @ Sprintf format1 a1)),
             (b, LOG_INFO, rendered (st @ [op_prefix (n + 1), op_prefix (n + 2)])
                (''[started]  '' @ Sprintf format2 a2)),
             outcome_line b (st @ [op_prefix (n + 1), op_prefix (n + 2)]) (Sprintf format2 a2) r,
             outcome_line b (st @ [op_prefix (n + 1)]) (Sprintf format1 a1) r]\<rparr>))"
proof -
  have stack: "prefixStack (fst (snd (LogOp f format a (l, w)))) = prefixStack l"
    if f: "\<And>s. prefixStack (fst (snd (f s))) = prefixStack (fst s)" for f
  proof (cases "ops l")
    case None
    then show ?thesis by (simp add: LogOp_run)
  next
    case (Some b)
    let ?s1 = "(l\<lparr>opSequenceNum := opSequenceNum l + 1,
                      prefixStack := prefixStack l @ [op_prefix (opSequenceNum l + 1)]\<rparr>,
                   w\<lparr>written := written w @
                      [(b, LOG_INFO, rendered (prefixStack l @ [op_prefix (opSequenceNum l + 1)])
                          (''[started]  '' @ Sprintf format a))]\<rparr>)"
    obtain r l2 w2 where run: "f ?s1 = (r, (l2, w2))"
      by (metis prod.exhaust)
    from f [of ?s1] run have "prefixStack l2 = prefixStack l @ [op_prefix (opSequenceNum l + 1)]"
      by simp
    with Some run show ?thesis
      by (cases r) (simp_all add: LogOp_run PopPrefix_run split: option.splits)
  qed
  have nested: "LogOp (LogOp (ret r) format2 a2) format1 a1
         (\<lparr>ops = Some b, prefixStack = st, opSequenceNum = n\<rparr>, w) =
       (Ok r, (\<lparr>ops = Some b, prefixStack = st, opSequenceNum = n + 2\<rparr>,
          w\<lparr>written := written w @
            [(b, LOG_INFO, rendered (st @ [op_prefix (n + 1)]) (''[started]  '' @ Sprintf format1 a1)),
             (b, LOG_INFO, rendered (st @ [op_prefix (n + 1), op_prefix (n + 2)])
                (''[started]  '' @ Sprintf format2 a2)),
             outcome_line b (st @ [op_prefix (n + 1), op_prefix (n + 2)]) (Sprintf format2 a2) r,
             outcome_line b (st @ [op_prefix (n + 1)]) (Sprintf format1 a1) r]\<rparr>))"
  proof -
    have two: "n + 1 + 1 = n + 2"
      by simp
    show ?thesis
      by (simp add: LogOp_run [where op = "LogOp (ret r) format2 a2"] LogOp_ret PopPrefix_run two
          del: add_2_eq_Suc add_2_eq_Suc')
  qed
  from stack [OF assms] stack [of "LogCmd_f cmd"] nested show ?thesis
    by (simp add: LogCmd_def LogCmd_f_frame)
qed

theorem wrapper_restores_prefix_stack_witness:
  "prefixStack (fst (snd (LogOp (andThen (PushPrefix ''stage %s'' [VString ''one'']) (\<lambda>_. andThen PopPrefix (\<lambda>_. ret None)))
       ''x'' [] (fresh_logger\<lparr>prefixStack := [''boot'']\<rparr>, syslog_host)))) = [''boot'']
   \<and> LogOp (LogOp (ret None) ''inner'' []) ''outer'' [] (fresh_logger, syslog_host) =
       (Ok None, (fresh_logger\<lparr>opSequenceNum := 2\<rparr>,
          syslog_host\<lparr>written :=
            [(Syslog_Writer, LOG_INFO, ''op(1): [started]  outer''),
             (Syslog_Writer, LOG_INFO, ''op(1): op(2): [started]  inner''),
             (Syslog_Writer, LOG_INFO, ''op(1): op(2): [finished] inner''),
             (Syslog_Writer, LOG_INFO, ''op(1): [finished] outer'')]\<rparr>))"
proof -
  let ?op = "andThen (PushPrefix ''stage %s'' [VString ''one'']) (\<lambda>_. andThen PopPrefix (\<lambda>_. ret None))"
  have h: "prefixStack (fst (snd (?op s))) = prefixStack (fst s)" for s :: state
    by (cases s) (simp add: andThen_apply PushPrefix_def PopPrefix_run)
  show ?thesis
    using wrapper_restores_prefix_stack [of ?op "''x''" "[]" "fresh_logger\<lparr>prefixStack := [''boot'']\<rparr>"
        syslog_host "\<lparr>Path = [], Args = []\<rparr>" None "''inner''" "[]" "''outer''" "[]" Syslog_Writer "[]" 0, OF h]
    by (simp add: fresh_logger_def syslog_host_def op_prefix_1 rendered_def outcome_line_def Sprintf_plain)
qed

text \<open>
  Claim C6 says that each marker is followed by exactly one space. It is not so for two of
  the three: on a fresh logger, \<open>LogOp\<close> with the message \<open>x\<close> around an action that
  fails with \<open>boom\<close> writes \<open>[started]\<close> followed by two spaces and \<open>[failed]\<close>
  followed by three.
\<close>

theorem marker_single_space_counterexample:
  "LogOp (ret (Some (Error ''boom''))) ''x'' [] (fresh_logger, syslog_host) =
     (Ok (Some (Error ''boom'')),
      (fresh_logger\<lparr>opSequenceNum := 1\<rparr>,
       syslog_host\<lparr>written :=
          [(Syslog_Writer, LOG_INFO, ''op(1): [started]  x''),
           (Syslog_Writer, LOG_CRIT, ''op(1): [failed]   x: boom'')]\<rparr>))
   \<and> ''op(1): [started]  x'' \<noteq> ''op(1): [started] x''
   \<and> ''op(1): [failed]   x: boom'' \<noteq> ''op(1): [failed] x: boom''"
  by (simp add: fresh_logger_def syslog_host_def LogOp_ret op_prefix_1 rendered_def
      outcome_line_def Sprintf_plain)

text \<open>
  Claim C6, amended. The three markers are padded to one width: the start line is
  \<open>[started]\<close>, two spaces and the expanded message; the success line is
  \<open>[finished]\<close>, one space and the expanded message; the failure line is \<open>[failed]\<close>,
  three spaces, the expanded message, a colon, a space and the failure's text. The start
  and success lines are written at informational severity, the failure line at critical
  severity, all under the prefix stack with the synthetic prefix on top.
\<close>

theorem wrapper_markers:
  "logStart \<lparr>ops = Some b, prefixStack = st, opSequenceNum = n\<rparr> format a w =
     (Ok (), w\<lparr>written := written w @
        [(b, LOG_INFO, rendered st (''[started]  '' @ Sprintf format a))]\<rparr>)
   \<and> logFinish \<lparr>ops = Some b, prefixStack = st, opSequenceNum = n\<rparr> format a w =
     (Ok (), w\<lparr>written := written w @
        [(b, LOG_INFO, rendered st (''[finished] '' @ Sprintf format a))]\<rparr>)
   \<and> logFail \<lparr>ops = Some b, prefixStack = st, opSequenceNum = n\<rparr> ''%s: %v''
         [VString (Sprintf format a), VError e] w =
     (Ok (), w\<lparr>written := written w @
        [(b, LOG_CRIT, rendered st (''[failed]   '' @ Sprintf format a @ '': '' @ msg e))]\<rparr>)
   \<and> LogOp (ret None) format a (\<lparr>ops = Some b, prefixStack = st, opSequenceNum = n\<rparr>, w) =
     (Ok None, (\<lparr>ops = Some b, prefixStack = st, opSequenceNum = n + 1\<rparr>,
        w\<lparr>written := written w @
          [(b, LOG_INFO, rendered (st @ [op_prefix (n + 1)]) (''[started]  '' @ Sprintf format a)),
           (b, LOG_INFO, rendered (st @ [op_prefix (n + 1)]) (''[finished] '' @ Sprintf format a))]\<rparr>))
   \<and> LogOp (ret (Some e)) format a (\<lparr>ops = Some b, prefixStack = st, opSequenceNum = n\<rparr>, w) =
     (Ok (Some e), (\<lparr>ops = Some b, prefixStack = st, opSequenceNum = n + 1\<rparr>,
        w\<lparr>written := written w @
          [(b, LOG_INFO, rendered (st @ [op_prefix (n + 1)]) (''[started]  '' @ Sprintf format a)),
           (b, LOG_CRIT, rendered (st @ [op_prefix (n + 1)])
              (''[failed]   '' @ Sprintf format a @ '': '' @ msg e))]\<rparr>))"
  by (simp add: logStart_run logFinish_run logFail_run LogOp_ret outcome_line_def)

theorem wrapper_markers_witness:
  "LogOp (ret None) ''fetch %s'' [VString ''x''] (fresh_logger, syslog_host) =
     (Ok None, (fresh_logger\<lparr>opSequenceNum := 1\<rparr>,
        syslog_host\<lparr>written :=
          [(Syslog_Writer, LOG_INFO, ''op(1): [started]  fetch x''),
           (Syslog_Writer, LOG_INFO, ''op(1): [finished] fetch x'')]\<rparr>))"
  using wrapper_markers [where b = Syslog_Writer and st = "[]" and n = 0 and w = syslog_host
      and format = "''fetch %s''" and a = "[VString ''x'']"]
  by (simp add: fresh_logger_def syslog_host_def op_prefix_1 rendered_def Sprintf.simps
      printArg_def fmt_text_def)

text \<open>
  Claim C8. When the process run by \<open>LogCmd\<close> fails with \<open>e\<close>, having written
  \<open>out\<close> and \<open>err\<close> to its standard output and standard error, the failure that is
  logged on the \<open>[failed]\<close> line and returned is the text of \<open>e\<close>, then
  \<open>: Stdout: \<close> and the quoted \<open>out\<close>, then \<open> Stderr: \<close> and the quoted \<open>err\<close>.
  The three letters \<open>out\<close> are quoted as themselves between double quotes.
\<close>

theorem LogCmd_failure_embeds_output:
  assumes "cmd_Run w cmd = (Some e, out, err)"
  shows "LogCmd cmd format a (\<lparr>ops = Some b, prefixStack = st, opSequenceNum = n\<rparr>, w) =
     (Ok (Some (Error (msg e @ '': Stdout: '' @ strconv_Quote out @ '' Stderr: '' @ strconv_Quote err))),
      (\<lparr>ops = Some b, prefixStack = st, opSequenceNum = n + 1\<rparr>,
       w\<lparr>written := written w @
          [(b, LOG_INFO, rendered (st @ [op_prefix (n + 1)]) (''[started]  '' @ Sprintf format a)),
           (b, LOG_DEBUG, rendered (st @ [op_prefix (n + 1)]) (cmd_line cmd)),
           (b, LOG_CRIT, rendered (st @ [op_prefix (n + 1)])
              (''[failed]   '' @ Sprintf format a @ '': '' @
               msg e @ '': Stdout: '' @ strconv_Quote out @ '' Stderr: '' @ strconv_Quote err))]\<rparr>))
    \<and> strconv_Quote ''out'' = [CHR 0x22] @ ''out'' @ [CHR 0x22]"
  using assms
  by (simp add: LogCmd_run cmd_result_def cmd_failure_def outcome_line_def strconv_Quote_def
      quote_byte_def)

theorem LogCmd_failure_embeds_output_witness:
  "LogCmd \<lparr>Path = ''/bin/false'', Args = [''false'']\<rparr> ''run'' [] (fresh_logger, syslog_host) =
     (Ok (Some (Error (''exit status 1: Stdout: '' @ [CHR 0x22] @ ''out'' @ [CHR 0x22] @ '' Stderr: '' @ [CHR 0x22, CHR 0x22]))),
      (fresh_logger\<lparr>opSequenceNum := 1\<rparr>,
       syslog_host\<lparr>written :=
          [(Syslog_Writer, LOG_INFO, ''op(1): [started]  run''),
           (Syslog_Writer, LOG_DEBUG, ''op(1): executing: /bin/false''),
           (Syslog_Writer, LOG_CRIT,
              ''op(1): [failed]   run: exit status 1: Stdout: '' @ [CHR 0x22] @ ''out'' @ [CHR 0x22] @ '' Stderr: '' @ [CHR 0x22, CHR 0x22])]\<rparr>))"
proof -
  have h: "cmd_Run syslog_host \<lparr>Path = ''/bin/false'', Args = [''false'']\<rparr> =
      (Some (Error ''exit status 1''), ''out'', [])"
    by (simp add: syslog_host_def)
  show ?thesis
    using LogCmd_failure_embeds_output [OF h, of "''run''" "[]" Syslog_Writer "[]" 0]
    by (simp add: fresh_logger_def syslog_host_def op_prefix_1 rendered_def Sprintf_plain
        cmd_line_def strconv_Quote_def quote_byte_def)
qed

text \<open>
  Claim C10. On a logger with a backend, around an action that returns \<open>r\<close> and leaves
  the backend in place, \<open>LogOp\<close> returns \<open>r\<close> whatever the backend replies to the
  writes of the start, failure and success lines; in particular when every write fails.
\<close>

theorem LogOp_returns_action_result:
  assumes "\<And>s. fst (op s) = Ok r"
    and "\<And>s. ops (fst (snd (op s))) = ops (fst s)"
  shows "fst (LogOp op format a (\<lparr>ops = Some b, prefixStack = st, opSequenceNum = n\<rparr>, w)) = Ok r
    \<and> fst (LogOp op format a (\<lparr>ops = Some b, prefixStack = st, opSequenceNum = n\<rparr>,
          w\<lparr>reply := (\<lambda>_ _. Some e)\<rparr>)) = Ok r"
proof -
  have "fst (LogOp op format a (\<lparr>ops = Some b, prefixStack = st, opSequenceNum = n\<rparr>, w')) = Ok r"
    for w'
  proof -
    let ?s1 = "(\<lparr>ops = Some b, prefixStack = st @ [op_prefix (n + 1)], opSequenceNum = n + 1\<rparr>,
                   w'\<lparr>written := written w' @
                      [(b, LOG_INFO, rendered (st @ [op_prefix (n + 1)])
                          (''[started]  '' @ Sprintf format a))]\<rparr>)"
    obtain r' l2 w2 where run: "op ?s1 = (r', (l2, w2))"
      by (metis prod.exhaust)
    from assms(1) [of ?s1] run have r: "r' = Ok r" by simp
    from assms(2) [of ?s1] run have b: "ops l2 = Some b" by simp
    show ?thesis
      using run r b by (simp add: LogOp_run PopPrefix_run split: option.splits)
  qed
  then show ?thesis by simp
qed

theorem LogOp_returns_action_result_witness:
  "fst (LogOp (ret None) ''sync'' [] (fresh_logger, failing_host)) = Ok None
   \<and> fst (LogOp (ret (Some (Error ''boom''))) ''sync'' [] (fresh_logger, failing_host)) = Ok (Some (Error ''boom''))
   \<and> reply failing_host [] (Syslog_Writer, LOG_INFO, ''op(1): [started]  sync'') = Some (Error ''write: broken pipe'')"
proof -
  have h1: "fst (ret r s) = Ok r" for r :: "error option" and s :: state
    by simp
  have h2: "ops (fst (snd (ret r s))) = ops (fst s)" for r :: "error option" and s :: state
    by simp
  show ?thesis
    using LogOp_returns_action_result [of "ret None" None "''sync''" "[]" Syslog_Writer "[]" 0 failing_host, OF h1 h2]
      LogOp_returns_action_result [of "ret (Some (Error ''boom''))" "Some (Error ''boom'')" "''sync''" "[]" Syslog_Writer "[]" 0 failing_host, OF h1 h2]
    by (simp add: fresh_logger_def failing_host_def syslog_host_def)
qed

section \<open>Construction\<close>

lemma New_run:
  "New w = (case syslog_New w of
      Inr slogger \<Rightarrow> (Ok \<lparr>ops = Some slogger, prefixStack = [], opSequenceNum = 0\<rparr>, w)
    | Inl e \<Rightarrow> (Ok \<lparr>ops = Some Stdout, prefixStack = [], opSequenceNum = 0\<rparr>,
               w\<lparr>written := written w @ [(Stdout, LOG_ERR, ''unable to open syslog: '' @ msg e)]\<rparr>))"
  by (simp add: New_def andThen_apply severity_run ops_method_def rendered_def Sprintf.simps
      printArg_def fmt_text_def split: sum.splits)

text \<open>
  Claim C5. \<open>New\<close> always returns a logger, and the logger has a backend. When the
  system log cannot be opened with failure \<open>e\<close>, the logger's backend is the console
  backend and one line at error severity, \<open>unable to open syslog: \<close> and the text of
  \<open>e\<close>, has been written to that console backend: it is what \<open>Err\<close> writes on the
  logger that already has the console backend, whereas \<open>Err\<close> on the zero value
  \<open>Logger{}\<close>, before a backend is assigned, panics. When the system log opens, its
  writer is the backend and nothing is written.
\<close>

theorem New_falls_back_to_console:
  "New (w\<lparr>syslog_New := Inl e\<rparr>) =
     (Ok \<lparr>ops = Some Stdout, prefixStack = [], opSequenceNum = 0\<rparr>,
      w\<lparr>syslog_New := Inl e,
        written := written w @ [(Stdout, LOG_ERR, ''unable to open syslog: '' @ msg e)]\<rparr>)
   \<and> snd (New (w\<lparr>syslog_New := Inl e\<rparr>)) =
       snd (Err \<lparr>ops = Some Stdout, prefixStack = [], opSequenceNum = 0\<rparr>
              ''unable to open syslog: %v'' [VError e] (w\<lparr>syslog_New := Inl e\<rparr>))
   \<and> New (w\<lparr>syslog_New := Inr slogger\<rparr>) =
     (Ok \<lparr>ops = Some slogger, prefixStack = [], opSequenceNum = 0\<rparr>, w\<lparr>syslog_New := Inr slogger\<rparr>)
   \<and> (\<exists>l w'. New w = (Ok l, w') \<and> ops l \<noteq> None)
   \<and> fst (Err \<lparr>ops = None, prefixStack = [], opSequenceNum = 0\<rparr>
              ''unable to open syslog: %v'' [VError e] w) = Panic"
  by (simp add: New_run severity_run ops_method_def rendered_def Sprintf.simps
      printArg_def fmt_text_def split: sum.splits)

theorem New_falls_back_to_console_witness:
  "New console_host =
     (Ok \<lparr>ops = Some Stdout, prefixStack = [], opSequenceNum = 0\<rparr>,
      console_host\<lparr>written := [(Stdout, LOG_ERR, ''unable to open syslog: no such file or directory'')]\<rparr>)"
  using New_falls_back_to_console [where w = syslog_host and e = "Error ''no such file or directory''"]
  by (simp add: console_host_def syslog_host_def)

section \<open>Sequences of pushes and pops\<close>

lemma is_pop_simps [simp]: "is_pop Pop" "\<not> is_pop (Push format a)"
  by (simp_all add: is_pop_def)

lemma overpops_deficit:
  "(\<forall>p \<in> set (prefixes cs).
      length (filter is_pop p) \<le> length (filter (\<lambda>c. \<not> is_pop c) p) + d) \<longleftrightarrow> deficit cs \<le> d"
proof (induction cs arbitrary: d)
  case Nil
  then show ?case by simp
next
  case (Cons c cs)
  show ?case
  proof (cases c)
    case (Push format a)
    have "(\<forall>p \<in> set (prefixes (c # cs)).
        length (filter is_pop p) \<le> length (filter (\<lambda>c. \<not> is_pop c) p) + d) \<longleftrightarrow>
      (\<forall>p \<in> set (prefixes cs).
        length (filter is_pop p) \<le> length (filter (\<lambda>c. \<not> is_pop c) p) + Suc d)"
      using Push by simp
    also have "\<dots> \<longleftrightarrow> deficit cs \<le> Suc d"
      by (rule Cons.IH)
    finally show ?thesis
      using Push by auto
  next
    case Pop
    show ?thesis
    proof (cases d)
      case 0
      have "[] \<in> set (prefixes cs)"
        by (simp add: in_set_prefixes)
      then have "\<not> (\<forall>p \<in> set (prefixes cs).
          Suc (length (filter is_pop p)) \<le> length (filter (\<lambda>c. \<not> is_pop c) p))"
        by (auto intro!: bexI [where x = "[]"])
      with 0 Pop show ?thesis
        by simp
    next
      case (Suc d')
      have "(\<forall>p \<in> set (prefixes (c # cs)).
          length (filter is_pop p) \<le> length (filter (\<lambda>c. \<not> is_pop c) p) + d) \<longleftrightarrow>
        (\<forall>p \<in> set (prefixes cs).
          length (filter is_pop p) \<le> length (filter (\<lambda>c. \<not> is_pop c) p) + d')"
        using Pop Suc by simp
      also have "\<dots> \<longleftrightarrow> deficit cs \<le> d'"
        by (rule Cons.IH)
      finally show ?thesis
        using Pop Suc by simp
    qed
  qed
qed

lemma never_overpops_deficit: "never_overpops cs \<longleftrightarrow> deficit cs = 0"
  using overpops_deficit [of cs 0] by (simp add: never_overpops_def)

lemma apply_calls_run:
  "deficit cs \<le> length (prefixStack l) \<Longrightarrow>
   apply_calls cs (l, w) =
     (Ok (), (l\<lparr>prefixStack :=
                 take (length (prefixStack l) - deficit cs) (prefixStack l) @ surviving cs\<rparr>, w))"
proof (induction cs arbitrary: l)
  case Nil
  then show ?case by simp
next
  case (Cons c cs)
  show ?case
  proof (cases c)
    case (Push format a)
    let ?l = "l\<lparr>prefixStack := prefixStack l @ [Sprintf format a]\<rparr>"
    from Cons.prems Push have "deficit cs \<le> length (prefixStack ?l)"
      by simp
    from Cons.IH [OF this] Push show ?thesis
      by (cases "deficit cs")
        (simp_all add: andThen_apply PushPrefix_def never_overpops_deficit)
  next
    case Pop
    let ?l = "l\<lparr>prefixStack := butlast (prefixStack l)\<rparr>"
    from Cons.prems Pop have ne: "prefixStack l \<noteq> []" and "deficit cs \<le> length (prefixStack ?l)"
      by auto
    from Cons.IH [OF this(2)] ne Pop show ?thesis
      by (simp add: andThen_apply PopPrefix_run butlast_conv_take min_def)
  qed
qed

text \<open>
  Claim C9. A sequence of \<open>PushPrefix\<close> and \<open>PopPrefix\<close> calls no prefix of which
  contains more pops than pushes runs to its end, writes nothing, and leaves the prefix
  stack it started from followed by the pushed labels that were not popped, in the order
  of their pushes, each pop having removed the most recent label still there.
\<close>

theorem balanced_calls_leave_surviving_labels:
  assumes "never_overpops calls"
  shows "apply_calls calls (l, w) = (Ok (), (l\<lparr>prefixStack := prefixStack l @ surviving calls\<rparr>, w))"
  using assms apply_calls_run [of calls l w] by (simp add: never_overpops_deficit)

theorem balanced_calls_leave_surviving_labels_witness:
  "never_overpops [Push ''a'' [], Push ''b%d'' [VInt 2], Pop, Push ''c'' []]
   \<and> apply_calls [Push ''a'' [], Push ''b%d'' [VInt 2], Pop, Push ''c'' []] (fresh_logger, syslog_host) =
       (Ok (), (fresh_logger\<lparr>prefixStack := [''a'', ''c'']\<rparr>, syslog_host))"
proof -
  have h: "never_overpops [Push ''a'' [], Push ''b%d'' [VInt 2], Pop, Push ''c'' []]"
    by (simp add: never_overpops_def)
  have "\<not> never_overpops [Pop, Push ''c'' []]"
    by (simp add: never_overpops_def)
  moreover have "never_overpops [Push ''c'' []]" "never_overpops []"
    "never_overpops [Push ''b%d'' [VInt 2], Pop, Push ''c'' []]"
    by (simp_all add: never_overpops_def)
  ultimately show ?thesis
    using h balanced_calls_leave_surviving_labels [OF h, of fresh_logger syslog_host]
    by (simp add: fresh_logger_def Sprintf_plain)
qed

section \<open>Operation identifiers\<close>

lemma sint_of_nat_small: "(k::nat) < 2^63 \<Longrightarrow> sint (of_nat k :: 64 word) = int k"
proof -
  assume k: "k < 2^63"
  have "sint (of_nat k :: 64 word) = signed_take_bit 63 (int k)"
    by (simp add: signed_of_nat)
  also have "\<dots> = int k"
    by (rule signed_take_bit_int_eq_self) (use k in simp_all)
  finally show ?thesis .
qed

lemma fmt_x_of_nat: "k < 2^63 \<Longrightarrow> fmt_x (of_nat k) = fmt_base 16 k"
  by (simp add: fmt_x_def sint_of_nat_small del: fmt_base.simps)

lemma digit_index_digit: "d < 16 \<Longrightarrow> digit_index (digit_chars ! d) = d"
proof -
  assume "d < 16"
  then have "d \<in> set [0..<16]"
    by simp
  also have "[0..<16] = [0, 1, 2, 3, 4, 5, 6, 7, 8, 9, 10, 11, 12, 13, 14, 15 :: nat]"
    by code_simp
  finally show ?thesis
    by (auto simp: digit_index_def digit_chars_def)
qed

lemma read_hex_snoc: "read_hex (s @ [c]) = 16 * read_hex s + digit_index c"
  by (simp add: read_hex_def)

lemma read_hex_fmt: "read_hex (fmt_base 16 n) = n"
proof (induction n rule: less_induct)
  case (less n)
  show ?case
  proof (cases "n < 16")
    case True
    then have "fmt_base 16 n = [digit_chars ! n]"
      by simp
    with True show ?thesis
      by (simp add: read_hex_def digit_index_digit del: fmt_base.simps)
  next
    case False
    then have "fmt_base 16 n = fmt_base 16 (n div 16) @ [digit_chars ! (n mod 16)]"
      by simp
    moreover from False have "read_hex (fmt_base 16 (n div 16)) = n div 16"
      by (intro less.IH) simp
    ultimately show ?thesis
      by (simp add: read_hex_snoc digit_index_digit del: fmt_base.simps)
  qed
qed

lemma fmt_base_16_inj: "fmt_base 16 m = fmt_base 16 n \<Longrightarrow> m = n"
  by (metis read_hex_fmt)

lemma hex_prefixes_distinct: "distinct (map (\<lambda>k. ''op('' @ fmt_base 16 k @ '')'') [1..<Suc N])"
  by (auto simp: distinct_map inj_on_def dest: fmt_base_16_inj simp del: fmt_base.simps)

lemma invoke_all_append:
  "invoke_all (xs @ ys) s =
     (case invoke_all xs s of (Panic, s') \<Rightarrow> (Panic, s') | (Ok u, s') \<Rightarrow> invoke_all ys s')"
  by (induction xs arbitrary: s) (simp_all add: andThen_apply split: prod.splits res.splits)

lemma numbered_Cons:
  "concat (map (\<lambda>(k, i). F k i) (zip [1..<Suc (Suc n)] (x # xs))) =
     F 1 x @ concat (map (\<lambda>(k, i). F (Suc k) i) (zip [1..<Suc n] xs))"
proof -
  have "[1..<Suc (Suc n)] = 1 # map Suc [1..<Suc n]"
    by (simp add: map_Suc_upt upt_conv_Cons del: upt_Suc)
  then show ?thesis
    by (simp add: zip_map1 comp_def case_prod_unfold del: upt_Suc)
qed

lemma invoke_all_run:
  "invoke_all invs (\<lparr>ops = Some b, prefixStack = st, opSequenceNum = c\<rparr>, w) =
     (Ok (), (\<lparr>ops = Some b, prefixStack = st, opSequenceNum = c + of_nat (length invs)\<rparr>,
        w\<lparr>written := written w @
           concat (map (\<lambda>(k, i). op_lines (cmd_Run w) b st (op_prefix (c + of_nat k)) i)
                     (zip [1..<Suc (length invs)] invs))\<rparr>))"
proof (induction invs arbitrary: c w)
  case Nil
  then show ?case by simp
next
  case (Cons i invs)
  let ?w = "w\<lparr>written := written w @ op_lines (cmd_Run w) b st (op_prefix (c + 1)) i\<rparr>"
  have "invoke_all (i # invs) (\<lparr>ops = Some b, prefixStack = st, opSequenceNum = c\<rparr>, w) =
      invoke_all invs (\<lparr>ops = Some b, prefixStack = st, opSequenceNum = c + 1\<rparr>, ?w)"
    by (simp add: andThen_apply invoke_run del: invoke.simps op_lines.simps)
  also have "\<dots> = (Ok (), (\<lparr>ops = Some b, prefixStack = st,
        opSequenceNum = c + 1 + of_nat (length invs)\<rparr>,
      ?w\<lparr>written := written ?w @
           concat (map (\<lambda>(k, i). op_lines (cmd_Run ?w) b st (op_prefix (c + 1 + of_nat k)) i)
                     (zip [1..<Suc (length invs)] invs))\<rparr>))"
    by (rule Cons.IH)
  also have "\<dots> = (Ok (), (\<lparr>ops = Some b, prefixStack = st,
        opSequenceNum = c + of_nat (length (i # invs))\<rparr>,
      w\<lparr>written := written w @
           concat (map (\<lambda>(k, i). op_lines (cmd_Run w) b st (op_prefix (c + of_nat k)) i)
                     (zip [1..<Suc (length (i # invs))] (i # invs)))\<rparr>))"
    using numbered_Cons [of "\<lambda>k i. op_lines (cmd_Run w) b st (op_prefix (c + of_nat k)) i"
        "length invs" i invs]
    by (simp add: ac_simps del: upt_Suc op_lines.simps)
  finally show ?case .
qed

text \<open>
  Claim C3 gives the identifiers of \<open>N\<close> invocations as the hexadecimal renderings of
  \<open>1..N\<close> for every \<open>N\<close>. The counter is a Go \<open>int\<close>: incremented from
  \<open>2^63 - 1\<close> it wraps to the least \<open>int\<close>, which \<open>%x\<close> renders with a minus sign.
  So the last of \<open>2^63\<close> invocations on one fresh logger writes its lines under
  \<open>op(-8000000000000000)\<close>, while the hexadecimal rendering of \<open>2^63\<close> is
  \<open>8000000000000000\<close>.
\<close>

theorem op_ids_wrap_counterexample:
  "last (written (snd (snd (invoke_all (replicate (2 ^ 63) (Op_returning None ''x'' []))
      (fresh_logger, syslog_host))))) =
     (Syslog_Writer, LOG_INFO, ''op(-8000000000000000): [finished] x'')
   \<and> fmt_base 16 (2 ^ 63) = ''8000000000000000''"
proof -
  let ?x = "Op_returning None ''x'' []"
  let ?M = "9223372036854775807 :: nat"
  let ?l = "\<lparr>ops = Some Syslog_Writer, prefixStack = [], opSequenceNum = 0 + of_nat (length (replicate ?M ?x))\<rparr>"
  let ?w = "syslog_host\<lparr>written := written syslog_host @
           concat (map (\<lambda>(k, i). op_lines (cmd_Run syslog_host) Syslog_Writer [] (op_prefix (0 + of_nat k)) i)
                     (zip [1..<Suc (length (replicate ?M ?x))] (replicate ?M ?x)))\<rparr>"
  have "replicate (2 ^ 63) ?x = replicate (Suc ?M) ?x"
    by simp
  also have "\<dots> = replicate ?M ?x @ [?x]"
    by (simp only: replicate_Suc replicate_append_same)
  finally have split: "replicate (2 ^ 63) ?x = replicate ?M ?x @ [?x]" .
  have first: "invoke_all (replicate ?M ?x) (fresh_logger, syslog_host) = (Ok (), (?l, ?w))"
    unfolding fresh_logger_def by (rule invoke_all_run)
  have ident: "op_prefix (opSequenceNum ?l + 1) = ''op(-8000000000000000)''"
    by (simp add: op_prefix_def fmt_x_def digit_chars_def)
  have "invoke ?x (?l, ?w) =
      (Ok None, (?l\<lparr>opSequenceNum := opSequenceNum ?l + 1\<rparr>,
         ?w\<lparr>written := written ?w @ op_lines (cmd_Run ?w) Syslog_Writer [] (op_prefix (opSequenceNum ?l + 1)) ?x\<rparr>))"
    using invoke_run [of ?x Syslog_Writer "[]" "opSequenceNum ?l" ?w]
    by (simp del: invoke.simps op_lines.simps length_replicate upt_Suc)
  then have "last (written (snd (snd (invoke ?x (?l, ?w))))) =
      (Syslog_Writer, LOG_INFO, ''op(-8000000000000000): [finished] x'')"
    by (simp only: ident) (simp add: outcome_line_def rendered_def Sprintf_plain)
  moreover have "invoke_all (replicate (2 ^ 63) ?x) (fresh_logger, syslog_host) =
      andThen (invoke ?x) (\<lambda>_. ret ()) (?l, ?w)"
    by (simp only: split invoke_all_append first prod.case res.case invoke_all.simps)
  ultimately have "last (written (snd (snd (invoke_all (replicate (2 ^ 63) ?x) (fresh_logger, syslog_host))))) =
      (Syslog_Writer, LOG_INFO, ''op(-8000000000000000): [finished] x'')"
    by (cases "invoke ?x (?l, ?w)") (auto simp only: andThen_apply ret_apply prod.case res.case snd_conv fst_conv split: res.splits)
  moreover have "fmt_base 16 (2 ^ 63) = ''8000000000000000''"
    by (simp add: digit_chars_def)
  ultimately show ?thesis
    by (rule conjI)
qed

text \<open>
  Claim C3, amended. The logger \<open>New\<close> returns has the counter \<open>0\<close> and an empty
  prefix stack. On a logger with a backend and the counter \<open>0\<close>, the lines written by
  \<open>N\<close> invocations of \<open>LogOp\<close> and \<open>LogCmd\<close>, for \<open>N\<close> below \<open>2^63\<close>, are in order
  those of the first invocation under the prefix \<open>op(1)\<close>, of the second under
  \<open>op(2)\<close>, and so on, the \<open>k\<close>-th under \<open>op(\<close>lowercase hexadecimal of \<open>k)\<close>; the
  counter ends at \<open>N\<close>, one increment for each invocation; and these \<open>N\<close> prefixes are
  pairwise different.
\<close>

theorem op_ids_count_up:
  assumes "length invs < 2 ^ 63"
  shows "(\<exists>l w'. New w = (Ok l, w') \<and> opSequenceNum l = 0 \<and> prefixStack l = [])
    \<and> invoke_all invs (\<lparr>ops = Some b, prefixStack = st, opSequenceNum = 0\<rparr>, w) =
       (Ok (), (\<lparr>ops = Some b, prefixStack = st, opSequenceNum = of_nat (length invs)\<rparr>,
          w\<lparr>written := written w @
             concat (map (\<lambda>(k, i). op_lines (cmd_Run w) b st (''op('' @ fmt_base 16 k @ '')'') i)
                       (zip [1..<Suc (length invs)] invs))\<rparr>))
    \<and> distinct (map (\<lambda>k. ''op('' @ fmt_base 16 k @ '')'') [1..<Suc (length invs)])
    \<and> (\<forall>k. read_hex (fmt_base 16 k) = k)"
proof -
  have new: "\<exists>l w'. New w = (Ok l, w') \<and> opSequenceNum l = 0 \<and> prefixStack l = []"
    by (simp add: New_run split: sum.splits)
  have "map (\<lambda>(k, i). op_lines (cmd_Run w) b st (op_prefix (0 + of_nat k)) i)
          (zip [1..<Suc (length invs)] invs) =
        map (\<lambda>(k, i). op_lines (cmd_Run w) b st (''op('' @ fmt_base 16 k @ '')'') i)
          (zip [1..<Suc (length invs)] invs)"
  proof (rule map_cong [OF refl])
    fix p
    assume "p \<in> set (zip [1..<Suc (length invs)] invs)"
    then have "fst p \<in> set [1..<Suc (length invs)]"
      by (metis prod.collapse set_zip_leftD)
    with assms have "fst p < 2 ^ 63"
      by auto
    then have "op_prefix (0 + of_nat (fst p)) = ''op('' @ fmt_base 16 (fst p) @ '')''"
      by (simp add: op_prefix_def fmt_x_of_nat del: fmt_base.simps)
    then show "(case p of (k, i) \<Rightarrow> op_lines (cmd_Run w) b st (op_prefix (0 + of_nat k)) i) =
        (case p of (k, i) \<Rightarrow> op_lines (cmd_Run w) b st (''op('' @ fmt_base 16 k @ '')'') i)"
      by (simp add: case_prod_unfold del: fmt_base.simps op_lines.simps)
  qed
  then have run: "invoke_all invs (\<lparr>ops = Some b, prefixStack = st, opSequenceNum = 0\<rparr>, w) =
       (Ok (), (\<lparr>ops = Some b, prefixStack = st, opSequenceNum = of_nat (length invs)\<rparr>,
          w\<lparr>written := written w @
             concat (map (\<lambda>(k, i). op_lines (cmd_Run w) b st (''op('' @ fmt_base 16 k @ '')'') i)
                       (zip [1..<Suc (length invs)] invs))\<rparr>))"
    using invoke_all_run [of invs b st 0 w] by (simp only: add.left_neutral)
  from new run hex_prefixes_distinct [of "length invs"] read_hex_fmt show ?thesis
    by blast
qed

theorem op_ids_count_up_witness:
  "invoke_all [Op_returning None ''a'' [], Cmd_run \<lparr>Path = ''/bin/false'', Args = [''false'']\<rparr> ''b'' [],
       Op_returning (Some (Error ''boom'')) ''c'' []] (fresh_logger, syslog_host) =
     (Ok (), (fresh_logger\<lparr>opSequenceNum := 3\<rparr>,
        syslog_host\<lparr>written :=
          [(Syslog_Writer, LOG_INFO, ''op(1): [started]  a''),
           (Syslog_Writer, LOG_INFO, ''op(1): [finished] a''),
           (Syslog_Writer, LOG_INFO, ''op(2): [started]  b''),
           (Syslog_Writer, LOG_DEBUG, ''op(2): executing: /bin/false''),
           (Syslog_Writer, LOG_CRIT,
              ''op(2): [failed]   b: exit status 1: Stdout: '' @ [CHR 0x22] @ ''out'' @ [CHR 0x22] @ '' Stderr: '' @ [CHR 0x22, CHR 0x22]),
           (Syslog_Writer, LOG_INFO, ''op(3): [started]  c''),
           (Syslog_Writer, LOG_CRIT, ''op(3): [failed]   c: boom'')]\<rparr>))
   \<and> fmt_base 16 255 = ''ff''"
proof -
  let ?invs = "[Op_returning None ''a'' [], Cmd_run \<lparr>Path = ''/bin/false'', Args = [''false'']\<rparr> ''b'' [],
       Op_returning (Some (Error ''boom'')) ''c'' []]"
  have h: "length ?invs < 2 ^ 63"
    by simp
  have "[1..<Suc (length ?invs)] = [1, 2, 3]"
    by code_simp
  then show ?thesis
    using op_ids_count_up [OF h, of syslog_host Syslog_Writer "[]"]
    by (simp add: fresh_logger_def syslog_host_def rendered_def outcome_line_def Sprintf_plain
        cmd_line_def cmd_result_def cmd_failure_def strconv_Quote_def quote_byte_def digit_chars_def
        del: upt_Suc)
qed

end
